theory Spec2Isabelle
  imports Complex_Main
begin

section \<open>Arithmetic of the source\<close>

text \<open>
  The program computes on C++ \<^verbatim>\<open>double\<close>. A double is modelled by the real number it
  stands for; infinities and NaN are outside the model. The definitions of the next
  sections compute in exact real arithmetic: they are the source where no operation
  rounds. Section \<open>Rounded arithmetic\<close> gives the functions whose results depend on
  rounding over an arithmetic with a rounding function, of which exact arithmetic and
  IEEE-754 binary64 are instances. A quotient with divisor zero is no real number
  (IEEE-754 answers with an infinity or a NaN there), so a division whose divisor is a
  variable of the program is written with \<open>divide_checked\<close>, and \<open>None\<close> is the value
  "no real number".
\<close>

definition divide_checked :: "real \<Rightarrow> real \<Rightarrow> real option" where
  "divide_checked a b = (if b = 0 then None else Some (a / b))"

section \<open>Quintic interpolation (\<^verbatim>\<open>quinticPath\<close>)\<close>

text \<open>
  \<^verbatim>\<open>
  double quinticPath(double t, double T) {
      if (t <= 0) return 0.0;
      if (t >= T) return 1.0;
      double normalized_t = t / T;
      return 10 * std::pow(normalized_t, 3) - 15 * std::pow(normalized_t, 4)
             + 6 * std::pow(normalized_t, 5);
  }
  \<close>
\<close>

definition quinticPath :: "real \<Rightarrow> real \<Rightarrow> real option" where
  "quinticPath t T =
     (if t \<le> 0 then Some 0
      else if t \<ge> T then Some 1
      else case divide_checked t T of
             None \<Rightarrow> None
           | Some normalized_t \<Rightarrow>
               Some (10 * normalized_t ^ 3 - 15 * normalized_t ^ 4 + 6 * normalized_t ^ 5))"

text \<open>The polynomial of the specification, \<open>10u\<^sup>3 - 15u\<^sup>4 + 6u\<^sup>5\<close>.\<close>

definition quintic_poly :: "real \<Rightarrow> real" where
  "quintic_poly u = 10 * u ^ 3 - 15 * u ^ 4 + 6 * u ^ 5"

section \<open>Velocity-limited duration (\<^verbatim>\<open>getSafeMovementTime\<close>)\<close>

text \<open>
  A \<^verbatim>\<open>std::array<double, 7>\<close> is a list of reals read at the indices \<open>0..6\<close>; the
  theorems that need all seven entries assume length 7. The function prints a warning on
  its second branch; what the warning shows is returned beside the duration: the number
  of the critical joint, the rate \<^verbatim>\<open>max_delta / desired_time\<close> (the only quotient by
  the requested time in the function) and the increased time.
\<close>

definition MAX_JOINT_VELOCITY :: real where
  "MAX_JOINT_VELOCITY = 2"

record velocity_warning =
  joint_number :: int
  needed_rate :: "real option"
  increased_time :: real

text \<open>One pass of the loop body over joint \<open>i\<close>, on the pair
  (\<^verbatim>\<open>max_delta\<close>, \<^verbatim>\<open>critical_joint\<close>).\<close>

definition delta_step :: "real list \<Rightarrow> real list \<Rightarrow> nat \<Rightarrow> real \<times> int \<Rightarrow> real \<times> int" where
  "delta_step q_start q_end i acc =
     (let delta = \<bar>q_end ! i - q_start ! i\<bar>
      in if delta > fst acc then (delta, int i) else acc)"

definition getSafeMovementTime ::
  "real list \<Rightarrow> real list \<Rightarrow> real \<Rightarrow> real \<times> velocity_warning option" where
  "getSafeMovementTime q_start q_end desired_time =
     (let (max_delta, critical_joint) = fold (delta_step q_start q_end) [0..<7] (0, - 1);
          min_safe_time = max_delta / MAX_JOINT_VELOCITY
      in if desired_time \<ge> min_safe_time then (desired_time, None)
         else (min_safe_time,
               Some \<lparr>joint_number = critical_joint + 1,
                     needed_rate = divide_checked max_delta desired_time,
                     increased_time = min_safe_time\<rparr>))"

text \<open>The specification's \<open>maxDelta = max\<^sub>i |target\<^sub>i - start\<^sub>i|\<close> over the seven axes.\<close>

definition maxDelta :: "real list \<Rightarrow> real list \<Rightarrow> real" where
  "maxDelta q_start q_end = Max ((\<lambda>i. \<bar>q_end ! i - q_start ! i\<bar>) ` {0..<7})"

section \<open>The control callback of \<^verbatim>\<open>moveJoints\<close>\<close>

text \<open>
  \<^verbatim>\<open>franka::JointPositions\<close> carries the commanded joints and the
  \<^verbatim>\<open>motion_finished\<close> flag that \<^verbatim>\<open>franka::MotionFinished\<close> sets. The lambda
  captures \<^verbatim>\<open>time_total\<close> by reference: the model takes its value and returns the new
  one. The commanded joints are \<open>None\<close> only if the interpolation factor is no real number.
\<close>

record JointPositions =
  q :: "real list option"
  motion_finished :: bool

definition control_callback ::
  "real list \<Rightarrow> real list \<Rightarrow> real \<Rightarrow> real \<Rightarrow> real \<Rightarrow> real \<times> JointPositions" where
  "control_callback q_current q_target safe_duration time_total period =
     (let time_passed = period;
          time_total' = time_total + time_passed;
          factor = quinticPath time_total' safe_duration;
          q_desired = map_option
            (\<lambda>f. map (\<lambda>i. q_current ! i + f * (q_target ! i - q_current ! i)) [0..<7]) factor
      in (time_total',
          \<lparr>q = q_desired, motion_finished = (time_total' \<ge> safe_duration * (101 / 100))\<rparr>))"

text \<open>
  \<^verbatim>\<open>robot.control\<close> belongs to the robot library and is a parameter of the model: the
  runtime calls the callback once per cycle with the cycle's period, stops normally at the
  first output whose \<^verbatim>\<open>motion_finished\<close> is set, and throws
  \<^verbatim>\<open>franka::Exception\<close> when it faults. The list holds the periods the runtime
  delivers before it faults; the result says whether the motion finished, and lists the
  outputs of the callback in order.
\<close>

fun control_loop ::
  "(real \<Rightarrow> real \<Rightarrow> real \<times> JointPositions) \<Rightarrow> real \<Rightarrow> real list \<Rightarrow> bool \<times> JointPositions list" where
  "control_loop cb time_total [] = (False, [])"
| "control_loop cb time_total (period # periods) =
     (let (time_total', out) = cb time_total period
      in if motion_finished out then (True, [out])
         else (let (fin, outs) = control_loop cb time_total' periods in (fin, out # outs)))"

section \<open>The robot, the clock and \<^verbatim>\<open>moveJoints\<close>\<close>

text \<open>
  The robot library, the clock and the sleeping thread are outside the repository. Their
  behaviour is a parameter: what the \<open>n\<close>-th call of each operation answers. The state
  that \<^verbatim>\<open>moveJoints\<close> threads is the log of the calls made so far, oldest first.
\<close>

datatype call = ReadOnce | Control | AutomaticErrorRecovery | ClockNow | SleepFor nat

record hardware =
  readOnce_result :: "nat \<Rightarrow> real list option"
  control_periods :: "nat \<Rightarrow> real list"
  recovery_result :: "nat \<Rightarrow> bool"
  clock_reading :: "nat \<Rightarrow> real"

text \<open>\<open>None\<close> and \<open>False\<close> stand for a thrown \<^verbatim>\<open>franka::Exception\<close>.\<close>

definition readOnce :: "hardware \<Rightarrow> call list \<Rightarrow> real list option \<times> call list" where
  "readOnce hw calls = (readOnce_result hw (count_list calls ReadOnce), calls @ [ReadOnce])"

definition now :: "hardware \<Rightarrow> call list \<Rightarrow> real \<times> call list" where
  "now hw calls = (clock_reading hw (count_list calls ClockNow), calls @ [ClockNow])"

definition control ::
  "hardware \<Rightarrow> call list \<Rightarrow> (real \<Rightarrow> real \<Rightarrow> real \<times> JointPositions) \<Rightarrow> bool \<times> call list" where
  "control hw calls cb =
     (fst (control_loop cb 0 (control_periods hw (count_list calls Control))), calls @ [Control])"

definition automaticErrorRecovery :: "hardware \<Rightarrow> call list \<Rightarrow> bool \<times> call list" where
  "automaticErrorRecovery hw calls =
     (recovery_result hw (count_list calls AutomaticErrorRecovery), calls @ [AutomaticErrorRecovery])"

definition sleep_for :: "nat \<Rightarrow> call list \<Rightarrow> call list" where
  "sleep_for ms calls = calls @ [SleepFor ms]"

definition recoverRobot :: "hardware \<Rightarrow> call list \<Rightarrow> call list" where
  "recoverRobot hw calls =
     (let (ok, calls1) = automaticErrorRecovery hw calls
      in if ok then calls1 else sleep_for 5000 calls1)"

text \<open>The \<^verbatim>\<open>try\<close> block of \<^verbatim>\<open>moveJoints\<close>: \<open>None\<close> when it throws, else the measured
  duration.\<close>

definition moveJoints_try ::
  "hardware \<Rightarrow> call list \<Rightarrow> real list \<Rightarrow> real \<Rightarrow> real option \<times> call list" where
  "moveJoints_try hw calls q_target desired_duration =
     (let (state, calls1) = readOnce hw calls
      in case state of
           None \<Rightarrow> (None, calls1)
         | Some q_current \<Rightarrow>
             (let safe_duration = fst (getSafeMovementTime q_current q_target desired_duration);
                  (start_time, calls2) = now hw calls1;
                  (finished, calls3) =
                     control hw calls2 (control_callback q_current q_target safe_duration)
              in if \<not> finished then (None, calls3)
                 else (let (end_time, calls4) = now hw calls3;
                           actual_duration = end_time - start_time;
                           calls5 = sleep_for 100 calls4
                       in (Some actual_duration, calls5))))"

function moveJoints ::
  "hardware \<Rightarrow> call list \<Rightarrow> real list \<Rightarrow> real \<Rightarrow> bool \<Rightarrow> real \<times> call list" where
  "moveJoints hw calls q_target desired_duration recover_on_error =
     (case moveJoints_try hw calls q_target desired_duration of
        (Some actual_duration, calls1) \<Rightarrow> (actual_duration, calls1)
      | (None, calls1) \<Rightarrow>
          if recover_on_error
          then moveJoints hw (recoverRobot hw calls1) q_target desired_duration False
          else (- 1, calls1))"
  by pat_completeness auto
termination
  by (relation "measure (\<lambda>(hw, calls, q_target, desired_duration, recover_on_error).
        if recover_on_error then 1 else 0)") auto

text \<open>
  A robot for running \<^verbatim>\<open>moveJoints\<close> on concrete inputs: it rests at the zero pose,
  its first \<open>faults\<close> control calls fault before any cycle and the later ones deliver one
  cycle of one second, recovery succeeds, and the \<open>n\<close>-th clock reading is \<open>n\<close> seconds.
\<close>

definition example_hardware :: "nat \<Rightarrow> hardware" where
  "example_hardware faults =
     \<lparr>readOnce_result = (\<lambda>n. Some [0, 0, 0, 0, 0, 0, 0]),
      control_periods = (\<lambda>n. if n < faults then [] else [1]),
      recovery_result = (\<lambda>n. True),
      clock_reading = real\<rparr>"

section \<open>Rounded arithmetic\<close>

text \<open>
  The operations of a floating-point format return the exact result rounded to the format.
  An arithmetic is its rounding function and its power function (\<^verbatim>\<open>std::pow\<close> is a
  library function, not an operation of the format). A numeric literal is the rounding of
  the number written; the small integers \<open>0\<close>, \<open>1\<close>, \<open>6\<close>, \<open>10\<close>, \<open>15\<close> belong to every
  format.
\<close>

record arith =
  rnd :: "real \<Rightarrow> real"
  pw :: "real \<Rightarrow> nat \<Rightarrow> real"

definition fadd :: "arith \<Rightarrow> real \<Rightarrow> real \<Rightarrow> real" where
  "fadd ar a b = rnd ar (a + b)"

definition fsub :: "arith \<Rightarrow> real \<Rightarrow> real \<Rightarrow> real" where
  "fsub ar a b = rnd ar (a - b)"

definition fmul :: "arith \<Rightarrow> real \<Rightarrow> real \<Rightarrow> real" where
  "fmul ar a b = rnd ar (a * b)"

definition fdiv :: "arith \<Rightarrow> real \<Rightarrow> real \<Rightarrow> real option" where
  "fdiv ar a b = map_option (rnd ar) (divide_checked a b)"

text \<open>Exact arithmetic: nothing rounds. The definitions of the sections above are the
  source in this arithmetic.\<close>

definition exact_arith :: arith where
  "exact_arith = \<lparr>rnd = (\<lambda>x. x), pw = (\<lambda>u n. u ^ n)\<rparr>"

text \<open>
  IEEE-754 binary64 (the \<^verbatim>\<open>double\<close> of the platforms the robot library runs on),
  rounding to nearest, ties to even: 53 significant bits, and below \<open>2\<^sup>-\<^sup>1\<^sup>0\<^sup>2\<^sup>2\<close> the fixed
  spacing \<open>2\<^sup>-\<^sup>1\<^sup>0\<^sup>7\<^sup>4\<close> of the subnormal numbers. Results beyond the largest double, where
  the machine answers with an infinity, are outside the model: the rounding keeps 53 bits
  there too.
\<close>

definition two_to :: "int \<Rightarrow> real" where
  "two_to e = (if 0 \<le> e then 2 ^ nat e else 1 / 2 ^ nat (- e))"

function log2_up :: "real \<Rightarrow> int" where
  "log2_up x = (if 2 \<le> x then 1 + log2_up (x / 2) else 0)"
  by pat_completeness auto
termination
proof (relation "measure (\<lambda>x. nat \<lceil>x\<rceil>)")
  show "wf (measure (\<lambda>x::real. nat \<lceil>x\<rceil>))"
    by simp
next
  fix x :: real
  assume "2 \<le> x"
  then have "\<lceil>x / 2\<rceil> < \<lceil>x\<rceil>"
    by (simp add: ceiling_less_iff) linarith
  moreover have "0 < \<lceil>x\<rceil>"
    using \<open>2 \<le> x\<close> by (simp add: ceiling_less_iff less_ceiling_iff)
  ultimately show "(x / 2, x) \<in> measure (\<lambda>x. nat \<lceil>x\<rceil>)"
    by simp
qed

function log2_down :: "real \<Rightarrow> int" where
  "log2_down x = (if 0 < x \<and> x < 1 then log2_down (2 * x) - 1 else 0)"
  by pat_completeness auto
termination
proof (relation "measure (\<lambda>x. nat \<lceil>1 / x\<rceil>)")
  show "wf (measure (\<lambda>x::real. nat \<lceil>1 / x\<rceil>))"
    by simp
next
  fix x :: real
  assume "0 < x \<and> x < 1"
  then have y: "1 < 1 / x"
    by simp
  define c where "c = \<lceil>1 / x\<rceil>"
  have c2: "2 \<le> c"
    using y unfolding c_def by (simp add: le_ceiling_iff)
  have "1 / x \<le> of_int c"
    unfolding c_def by (rule le_of_int_ceiling)
  then have "(1 / x) / 2 \<le> of_int (c - 1)"
    using c2 by simp
  then have "\<lceil>(1 / x) / 2\<rceil> \<le> c - 1"
    by (rule ceiling_le)
  then have "\<lceil>1 / (2 * x)\<rceil> < c"
    by (simp add: field_simps)
  with c2 have "nat \<lceil>1 / (2 * x)\<rceil> < nat c"
    by (simp add: zless_nat_conj)
  then show "(2 * x, x) \<in> measure (\<lambda>x. nat \<lceil>1 / x\<rceil>)"
    by (simp add: c_def)
qed

text \<open>For \<open>x > 0\<close>, \<open>ilog2 x\<close> is the exponent \<open>e\<close> with \<open>2\<^sup>e \<le> x < 2\<^sup>e\<^sup>+\<^sup>1\<close>.\<close>

definition ilog2 :: "real \<Rightarrow> int" where
  "ilog2 x = (if 1 \<le> x then log2_up x else log2_down x)"

text \<open>The nearest integer, the even one of two that are equally near.\<close>

definition rne :: "real \<Rightarrow> int" where
  "rne x =
     (let f = \<lfloor>x\<rfloor>; r = x - of_int f
      in if r < 1 / 2 then f else if 1 / 2 < r then f + 1 else if even f then f else f + 1)"

definition round64 :: "real \<Rightarrow> real" where
  "round64 x =
     (if x = 0 then 0
      else (let e = max (ilog2 \<bar>x\<bar> - 52) (- 1074)
            in sgn x * (of_int (rne (\<bar>x\<bar> / two_to e)) * two_to e)))"

text \<open>The power function is taken as correctly rounded. A library's \<^verbatim>\<open>std::pow\<close> may
  differ from that in the last place on some arguments.\<close>

definition binary64 :: arith where
  "binary64 = \<lparr>rnd = round64, pw = (\<lambda>u n. round64 (u ^ n))\<rparr>"

text \<open>
  An arithmetic is accurate (to binary64) when its rounding errs by at most half a unit in
  the last place, keeps the sign and rounds no number below 1 to one above 1, and its
  power function errs by at most one unit in the last place. Exact arithmetic is
  accurate, binary64 is, and so is binary64 with a power function of a library that is
  within one unit in the last place.
\<close>

definition accurate :: "arith \<Rightarrow> bool" where
  "accurate ar \<longleftrightarrow>
     (\<forall>x. \<bar>rnd ar x - x\<bar> \<le> \<bar>x\<bar> / 2 ^ 53 + 1 / 2 ^ 1075)
     \<and> (\<forall>x. 0 \<le> x \<longrightarrow> 0 \<le> rnd ar x)
     \<and> (\<forall>x. x \<le> 1 \<longrightarrow> rnd ar x \<le> 1)
     \<and> (\<forall>u n. 0 \<le> u \<longrightarrow> \<bar>pw ar u n - u ^ n\<bar> \<le> u ^ n / 2 ^ 52 + 1 / 2 ^ 1074)"

text \<open>
  \<^verbatim>\<open>quinticPath\<close> over an arithmetic. The sum is evaluated from the left:
  \<^verbatim>\<open>(10 * pow(u, 3) - 15 * pow(u, 4)) + 6 * pow(u, 5)\<close>.
\<close>

definition quinticPath_fp :: "arith \<Rightarrow> real \<Rightarrow> real \<Rightarrow> real option" where
  "quinticPath_fp ar t T =
     (if t \<le> 0 then Some 0
      else if t \<ge> T then Some 1
      else case fdiv ar t T of
             None \<Rightarrow> None
           | Some normalized_t \<Rightarrow>
               Some (fadd ar
                      (fsub ar (fmul ar 10 (pw ar normalized_t 3))
                               (fmul ar 15 (pw ar normalized_t 4)))
                      (fmul ar 6 (pw ar normalized_t 5))))"

text \<open>The control callback over an arithmetic; \<^verbatim>\<open>1.01\<close> is a literal.\<close>

definition control_callback_fp ::
  "arith \<Rightarrow> real list \<Rightarrow> real list \<Rightarrow> real \<Rightarrow> real \<Rightarrow> real \<Rightarrow> real \<times> JointPositions" where
  "control_callback_fp ar q_current q_target safe_duration time_total period =
     (let time_passed = period;
          time_total' = fadd ar time_total time_passed;
          factor = quinticPath_fp ar time_total' safe_duration;
          q_desired = map_option
            (\<lambda>f. map (\<lambda>i. fadd ar (q_current ! i)
                               (fmul ar f (fsub ar (q_target ! i) (q_current ! i)))) [0..<7])
            factor
      in (time_total',
          \<lparr>q = q_desired,
           motion_finished = (time_total' \<ge> fmul ar safe_duration (rnd ar (101 / 100)))\<rparr>))"

text \<open>The value of \<^verbatim>\<open>time_total\<close> after cycle \<open>n\<close> (cycles counted from 0): the periods
  added one by one in the arithmetic, starting from \<open>0.0\<close>.\<close>

definition elapsed_fp :: "arith \<Rightarrow> real list \<Rightarrow> nat \<Rightarrow> real" where
  "elapsed_fp ar periods n = foldl (fadd ar) 0 (take (Suc n) periods)"

section \<open>Reading the configuration (\<^verbatim>\<open>readDanceMovesFromConfig\<close>)\<close>

record DanceMove =
  move_index :: int
  joints :: "real list"
  move_time :: real

text \<open>
  The numeric extraction of the C++ library (\<^verbatim>\<open>num_get\<close>, behind \<^verbatim>\<open>operator>>\<close>)
  is a parameter: on the unread characters it either converts a value and leaves the rest,
  or converts nothing; then it may still store a value in the target (zero, or a limit on
  overflow).
\<close>

datatype 'a num_get = Converted 'a string | NoConversion "'a option"

text \<open>
  A \<^verbatim>\<open>std::istringstream\<close>: the unread characters and the fail bit. An extraction
  from a stream that is not good does nothing but set the fail bit: that is the case when
  the fail bit is set already, and when the end has been reached (the unread characters
  are exhausted). \<open>extract_from p iss x\<close> is \<^verbatim>\<open>iss >> x\<close>, returning the new value of
  \<open>x\<close> and the stream; \<^verbatim>\<open>!(iss >> x)\<close> is the fail bit of the stream returned.
\<close>

record istringstream =
  unread :: string
  failbit :: bool

definition extract_from :: "(string \<Rightarrow> 'a num_get) \<Rightarrow> istringstream \<Rightarrow> 'a \<Rightarrow> 'a \<times> istringstream" where
  "extract_from p iss x =
     (if failbit iss then (x, iss)
      else if unread iss = [] then (x, iss\<lparr>failbit := True\<rparr>)
      else case p (unread iss) of
             Converted v rest \<Rightarrow> (v, iss\<lparr>unread := rest\<rparr>)
           | NoConversion None \<Rightarrow> (x, iss\<lparr>failbit := True\<rparr>)
           | NoConversion (Some v) \<Rightarrow> (v, iss\<lparr>failbit := True\<rparr>))"

text \<open>
  The loop over the joints, from index \<open>i\<close> on. Its \<^verbatim>\<open>continue\<close> continues this
  loop, not the loop over the lines, so a failed joint is followed by the next joint.
  \<^verbatim>\<open>
  for (size_t i = 0; i < 7; ++i) {
      if (!(iss >> move.joints[i])) { std::cerr << ...; continue; }
  }
  \<close>
\<close>

function read_joints ::
  "(string \<Rightarrow> real num_get) \<Rightarrow> nat \<Rightarrow> real list \<Rightarrow> istringstream \<Rightarrow> real list \<times> istringstream" where
  "read_joints get_double i js iss =
     (if i < 7
      then (let (v, iss') = extract_from get_double iss (js ! i)
            in read_joints get_double (Suc i) (js[i := v]) iss')
      else (js, iss))"
  by pat_completeness auto
termination
  by (relation "measure (\<lambda>(get_double, i, js, iss). 7 - i)") auto

text \<open>
  The body of the loop over the lines: the moves read so far, and the line. \<open>move\<close> is
  the content of the uninitialised \<^verbatim>\<open>DanceMove move\<close>.
\<close>

definition read_line ::
  "(string \<Rightarrow> int num_get) \<Rightarrow> (string \<Rightarrow> real num_get) \<Rightarrow> DanceMove \<Rightarrow> string \<Rightarrow>
   DanceMove list \<Rightarrow> DanceMove list" where
  "read_line get_int get_double move line dance_moves =
     (if line = [] \<or> hd line = CHR ''#'' then dance_moves
      else (let iss = \<lparr>unread = line, failbit = False\<rparr>;
                (idx, iss1) = extract_from get_int iss (move_index move)
            in if failbit iss1 then dance_moves
               else (let (js, iss2) = read_joints get_double 0 (joints move) iss1;
                         (mt, iss3) = extract_from get_double iss2 (move_time move)
                     in if failbit iss3 then dance_moves
                        else dance_moves @ [\<lparr>move_index = idx, joints = js, move_time = mt\<rparr>])))"

datatype exn = RuntimeError string

text \<open>The file system is a parameter: the lines of the file at a path, \<open>None\<close> if it
  cannot be opened.\<close>

definition readDanceMovesFromConfig ::
  "(string \<Rightarrow> int num_get) \<Rightarrow> (string \<Rightarrow> real num_get) \<Rightarrow> DanceMove \<Rightarrow>
   (string \<Rightarrow> string list option) \<Rightarrow> string \<Rightarrow> exn + DanceMove list" where
  "readDanceMovesFromConfig get_int get_double move files config_file_path =
     (case files config_file_path of
        None \<Rightarrow> Inl (RuntimeError (''Failed to open configuration file: '' @ config_file_path))
      | Some lines \<Rightarrow>
          (let dance_moves = fold (read_line get_int get_double move) lines []
           in if dance_moves = []
              then Inl (RuntimeError ''No valid dance moves found in configuration file'')
              else Inr dance_moves))"

text \<open>
  The specification's reading of a line: a field parses from the text that is left when
  there is text and the extraction converts a value; a move parses when the index, seven
  joints and the time parse one after the other.
\<close>

definition field :: "(string \<Rightarrow> 'a num_get) \<Rightarrow> string \<Rightarrow> ('a \<times> string) option" where
  "field p s =
     (if s = [] then None
      else case p s of Converted v rest \<Rightarrow> Some (v, rest) | NoConversion _ \<Rightarrow> None)"

fun field_seq :: "nat \<Rightarrow> (string \<Rightarrow> 'a num_get) \<Rightarrow> string \<Rightarrow> ('a list \<times> string) option" where
  "field_seq 0 p s = Some ([], s)"
| "field_seq (Suc n) p s =
     (case field p s of
        None \<Rightarrow> None
      | Some (v, rest) \<Rightarrow>
          (case field_seq n p rest of
             None \<Rightarrow> None
           | Some (vs, rest') \<Rightarrow> Some (v # vs, rest')))"

definition parse_move ::
  "(string \<Rightarrow> int num_get) \<Rightarrow> (string \<Rightarrow> real num_get) \<Rightarrow> string \<Rightarrow> DanceMove option" where
  "parse_move get_int get_double line =
     (case field get_int line of
        None \<Rightarrow> None
      | Some (idx, rest) \<Rightarrow>
          (case field_seq 7 get_double rest of
             None \<Rightarrow> None
           | Some (js, rest') \<Rightarrow>
               (case field get_double rest' of
                  None \<Rightarrow> None
                | Some (mt, _) \<Rightarrow> Some \<lparr>move_index = idx, joints = js, move_time = mt\<rparr>)))"

text \<open>
  The specification's form of a data line (its section 6): nine whitespace-separated
  fields, an integer and eight numbers. \<open>split_fields\<close> cuts the line at white space
  (the field being read, then the rest of the line); a field is well formed when the
  extraction converts it as a whole, leaving nothing of it.
\<close>

definition is_space :: "char \<Rightarrow> bool" where
  "is_space c = (c \<in> set [CHR '' '', CHR 0x09, CHR 0x0A, CHR 0x0B, CHR 0x0C, CHR 0x0D])"

fun split_fields :: "string \<Rightarrow> string \<Rightarrow> string list" where
  "split_fields cur [] = (if cur = [] then [] else [cur])"
| "split_fields cur (c # cs) =
     (if is_space c
      then (if cur = [] then split_fields [] cs else cur # split_fields [] cs)
      else split_fields (cur @ [c]) cs)"

definition whole_field :: "(string \<Rightarrow> 'a num_get) \<Rightarrow> string \<Rightarrow> 'a option" where
  "whole_field p s =
     (case p s of
        Converted v rest \<Rightarrow> (if rest = [] then Some v else None)
      | NoConversion _ \<Rightarrow> None)"

definition well_formed_move ::
  "(string \<Rightarrow> int num_get) \<Rightarrow> (string \<Rightarrow> real num_get) \<Rightarrow> string \<Rightarrow> DanceMove option" where
  "well_formed_move get_int get_double line =
     (let fs = split_fields [] line
      in if length fs \<noteq> 9 then None
         else case whole_field get_int (fs ! 0) of
                None \<Rightarrow> None
              | Some idx \<Rightarrow>
                  (case those (map (whole_field get_double) (take 7 (tl fs))) of
                     None \<Rightarrow> None
                   | Some js \<Rightarrow>
                       (case whole_field get_double (fs ! 8) of
                          None \<Rightarrow> None
                        | Some mt \<Rightarrow> Some \<lparr>move_index = idx, joints = js, move_time = mt\<rparr>)))"

text \<open>
  An instance of the numeric extraction for running the reader on concrete lines. Both
  functions skip leading white space and read an optional sign and decimal digits; the
  one for \<^verbatim>\<open>double\<close> also reads a decimal point and the digits after it, and rounds
  the number to binary64. With white space only nothing is stored; with no digit zero is
  stored; an integer outside 32 bits stores the nearest limit. Exponents, hexadecimal
  numbers, \<^verbatim>\<open>inf\<close> and \<^verbatim>\<open>nan\<close> are beyond this instance.
\<close>

definition is_digit :: "char \<Rightarrow> bool" where
  "is_digit c = (c \<in> set ''0123456789'')"

definition digits_value :: "string \<Rightarrow> nat" where
  "digits_value ds = foldl (\<lambda>n c. 10 * n + (of_char c - 48)) 0 ds"

definition skip_sign :: "string \<Rightarrow> bool \<times> string" where
  "skip_sign s =
     (if s \<noteq> [] \<and> hd s = CHR ''-'' then (True, tl s)
      else if s \<noteq> [] \<and> hd s = CHR ''+'' then (False, tl s)
      else (False, s))"

definition decimal_int :: "string \<Rightarrow> int num_get" where
  "decimal_int s =
     (let s1 = dropWhile is_space s
      in if s1 = [] then NoConversion None
         else (let (negative, s2) = skip_sign s1;
                   ds = takeWhile is_digit s2;
                   v = (if negative then - int (digits_value ds) else int (digits_value ds))
               in if ds = [] then NoConversion (Some 0)
                  else if 2147483647 < v then NoConversion (Some 2147483647)
                  else if v < - 2147483648 then NoConversion (Some (- 2147483648))
                  else Converted v (dropWhile is_digit s2)))"

definition decimal_double :: "string \<Rightarrow> real num_get" where
  "decimal_double s =
     (let s1 = dropWhile is_space s
      in if s1 = [] then NoConversion None
         else (let (negative, s2) = skip_sign s1;
                   ip = takeWhile is_digit s2;
                   s3 = dropWhile is_digit s2;
                   point = (s3 \<noteq> [] \<and> hd s3 = CHR ''.'');
                   fp = (if point then takeWhile is_digit (tl s3) else []);
                   rest = (if point then dropWhile is_digit (tl s3) else s3);
                   v = real (digits_value (ip @ fp)) / 10 ^ length fp
               in if ip = [] \<and> fp = [] then NoConversion (Some 0)
                  else Converted (round64 (if negative then - v else v)) rest))"

section \<open>Evaluating the arithmetic\<close>

declare log2_up.simps [simp del] log2_down.simps [simp del]

lemmas fp_eval =
  round64_def ilog2_def log2_up.simps log2_down.simps rne_def two_to_def Let_def power_divide

lemma binary64_sel: "rnd binary64 = round64" "pw binary64 u n = round64 (u ^ n)"
  by (simp_all add: binary64_def)

lemmas fp_ops = fadd_def fsub_def fmul_def fdiv_def divide_checked_def binary64_sel

section \<open>Properties of the quintic profile\<close>

lemma quinticPath_cases:
  "quinticPath t T =
     Some (if t \<le> 0 then 0 else if t \<ge> T then 1 else quintic_poly (t / T))"
  by (auto simp: quinticPath_def divide_checked_def quintic_poly_def)







text \<open>
  Claim C6. The profile returns 0 for every \<open>t \<le> 0\<close>, 1 for every \<open>t \<ge> T\<close> and
  \<open>10u\<^sup>3 - 15u\<^sup>4 + 6u\<^sup>5\<close> with \<open>u = t/T\<close> otherwise; in particular \<open>s(0,T) = 0\<close> and
  \<open>s(T,T) = 1\<close> for every \<open>T > 0\<close>. The cases are tried in the order of the source, so
  where \<open>t \<le> 0\<close> and \<open>t \<ge> T\<close> both hold (only possible for \<open>T \<le> 0\<close>) the first one
  decides.
\<close>

theorem quinticPath_profile:
  "(t \<le> 0 \<longrightarrow> quinticPath t T = Some 0)
   \<and> (0 < t \<and> T \<le> t \<longrightarrow> quinticPath t T = Some 1)
   \<and> (0 < T \<and> T \<le> t \<longrightarrow> quinticPath t T = Some 1)
   \<and> (0 < t \<and> t < T \<longrightarrow>
        quinticPath t T = Some (10 * (t / T) ^ 3 - 15 * (t / T) ^ 4 + 6 * (t / T) ^ 5))
   \<and> (0 < T \<longrightarrow> quinticPath 0 T = Some 0 \<and> quinticPath T T = Some 1)"
  by (simp add: quinticPath_cases quintic_poly_def)

theorem quinticPath_profile_witness:
  "quinticPath (- 1) 2 = Some 0 \<and> quinticPath 3 2 = Some 1 \<and> quinticPath 1 2 = Some (1 / 2)
   \<and> quinticPath 0 2 = Some 0 \<and> quinticPath 2 2 = Some 1"
  using quinticPath_profile [of "- 1" 2] quinticPath_profile [of 3 2]
    quinticPath_profile [of 1 2] quinticPath_profile [of 0 2]
  by (simp add: power_divide)

text \<open>
  Claim C10. \<open>quinticPath\<close> returns a real number for every pair \<open>(t, T)\<close>, also for
  \<open>T \<le> 0\<close>: the branch \<open>t \<le> 0\<close> returns 0, the branch \<open>t \<ge> T\<close> returns 1, and the
  quotient \<open>t / T\<close> is reached only when \<open>0 < t < T\<close>, where \<open>T > 0\<close> and the quotient
  exists.
\<close>

theorem quinticPath_total:
  "(\<exists>y. quinticPath t T = Some y)
   \<and> (t \<le> 0 \<longrightarrow> quinticPath t T = Some 0)
   \<and> (\<not> t \<le> 0 \<and> t \<ge> T \<longrightarrow> quinticPath t T = Some 1)
   \<and> (\<not> t \<le> 0 \<and> \<not> t \<ge> T \<longrightarrow>
        0 < t \<and> t < T \<and> 0 < T \<and> divide_checked t T = Some (t / T))"
  by (auto simp: quinticPath_cases divide_checked_def)

theorem quinticPath_total_witness:
  "quinticPath 0 0 = Some 0 \<and> quinticPath (- 1) (- 2) = Some 0 \<and> quinticPath 1 0 = Some 1
   \<and> quinticPath 1 (- 2) = Some 1 \<and> divide_checked 1 2 = Some (1 / 2)"
  using quinticPath_total [of 0 0] quinticPath_total [of "- 1" "- 2"] quinticPath_total [of 1 0]
    quinticPath_total [of 1 "- 2"] quinticPath_total [of 1 2]
  by simp







section \<open>Properties of the safe duration\<close>

lemma delta_step_fst:
  "fst (delta_step q_start q_end i acc) = max (fst acc) \<bar>q_end ! i - q_start ! i\<bar>"
  by (simp add: delta_step_def Let_def max_def)

lemma fold_delta_step_fst:
  "fst (fold (delta_step q_start q_end) js acc) =
     Max (insert (fst acc) ((\<lambda>i. \<bar>q_end ! i - q_start ! i\<bar>) ` set js))"
proof (induction js arbitrary: acc)
  case Nil
  show ?case by simp
next
  case (Cons j js)
  let ?f = "\<lambda>i. \<bar>q_end ! i - q_start ! i\<bar>"
  have "Max (insert (max (fst acc) (?f j)) (?f ` set js)) =
        Max (insert (fst acc) (insert (?f j) (?f ` set js)))"
    by (cases "set js = {}") (simp_all add: max.assoc)
  with Cons show ?case
    by (simp add: delta_step_fst)
qed

lemma maxDelta_ge:
  "i < 7 \<Longrightarrow> \<bar>q_end ! i - q_start ! i\<bar> \<le> maxDelta q_start q_end"
  unfolding maxDelta_def by (rule Max_ge) auto

lemma maxDelta_nonneg: "0 \<le> maxDelta q_start q_end"
proof -
  have "\<bar>q_end ! 0 - q_start ! 0\<bar> \<le> maxDelta q_start q_end"
    by (rule maxDelta_ge) simp
  then show ?thesis
    by linarith
qed

lemma max_delta_loop:
  "fst (fold (delta_step q_start q_end) [0..<7] (0, - 1)) = maxDelta q_start q_end"
proof -
  let ?A = "(\<lambda>i. \<bar>q_end ! i - q_start ! i\<bar>) ` {0..<7::nat}"
  have "?A \<noteq> {}"
    by (auto intro!: exI [of _ "0::nat"])
  then have "Max (insert 0 ?A) = max 0 (Max ?A)"
    by simp
  also have "\<dots> = Max ?A"
    using maxDelta_nonneg [of q_start q_end] by (simp add: maxDelta_def)
  finally show ?thesis
    by (simp add: fold_delta_step_fst maxDelta_def)
qed

lemma maxDelta_pos:
  assumes "length q_start = 7" "length q_end = 7" "q_start \<noteq> q_end"
  shows "0 < maxDelta q_start q_end"
proof -
  from assms obtain i where i: "i < 7" "q_start ! i \<noteq> q_end ! i"
    by (auto simp: list_eq_iff_nth_eq)
  then have "0 < \<bar>q_end ! i - q_start ! i\<bar>"
    by simp
  with maxDelta_ge [OF i(1), of q_end q_start] show ?thesis
    by linarith
qed

lemma getSafeMovementTime_fst:
  "fst (getSafeMovementTime q_start q_end desired_time) =
     max desired_time (maxDelta q_start q_end / 2)"
  by (simp add: getSafeMovementTime_def MAX_JOINT_VELOCITY_def Let_def max_def
      case_prod_beta max_delta_loop)

lemma getSafeMovementTime_snd:
  "snd (getSafeMovementTime q_start q_end desired_time) = Some w \<Longrightarrow>
     needed_rate w = divide_checked (maxDelta q_start q_end) desired_time
     \<and> increased_time w = maxDelta q_start q_end / 2
     \<and> desired_time < maxDelta q_start q_end / 2"
  by (auto simp: getSafeMovementTime_def MAX_JOINT_VELOCITY_def Let_def
      case_prod_beta max_delta_loop split: if_splits)

lemma safe_duration_parts:
  assumes "length q_start = 7" "length q_end = 7" "0 < desiredDuration"
  defines "safeDuration \<equiv> fst (getSafeMovementTime q_start q_end desiredDuration)"
  shows "safeDuration = max desiredDuration (maxDelta q_start q_end / 2)"
    and "desiredDuration \<le> safeDuration"
    and "maxDelta q_start q_end / safeDuration \<le> 2"
    and "\<forall>i<7. \<bar>q_end ! i - q_start ! i\<bar> / safeDuration \<le> 2"
    and "\<forall>d. desiredDuration \<le> d \<and> maxDelta q_start q_end / d \<le> 2 \<longrightarrow> safeDuration \<le> d"
    and "maxDelta q_start q_end = 1 \<and> desiredDuration = 1 / 10 \<longrightarrow> safeDuration = 1 / 2"
proof -
  show eq: "safeDuration = max desiredDuration (maxDelta q_start q_end / 2)"
    by (simp add: safeDuration_def getSafeMovementTime_fst)
  then show "desiredDuration \<le> safeDuration"
    by simp
  have pos: "0 < safeDuration"
    using eq assms(3) by simp
  have "maxDelta q_start q_end \<le> 2 * safeDuration"
    using eq by simp
  then show rate: "maxDelta q_start q_end / safeDuration \<le> 2"
    using pos by (simp add: field_simps)
  show "\<forall>i<7. \<bar>q_end ! i - q_start ! i\<bar> / safeDuration \<le> 2"
  proof (intro allI impI)
    fix i :: nat
    assume "i < 7"
    then have "\<bar>q_end ! i - q_start ! i\<bar> / safeDuration \<le> maxDelta q_start q_end / safeDuration"
      using pos by (simp add: divide_right_mono maxDelta_ge)
    with rate show "\<bar>q_end ! i - q_start ! i\<bar> / safeDuration \<le> 2"
      by linarith
  qed
  show "\<forall>d. desiredDuration \<le> d \<and> maxDelta q_start q_end / d \<le> 2 \<longrightarrow> safeDuration \<le> d"
  proof (intro allI impI)
    fix d
    assume d: "desiredDuration \<le> d \<and> maxDelta q_start q_end / d \<le> 2"
    then have "0 < d"
      using assms(3) by linarith
    with d have "maxDelta q_start q_end / 2 \<le> d"
      by (simp add: field_simps)
    with d eq show "safeDuration \<le> d"
      by simp
  qed
  show "maxDelta q_start q_end = 1 \<and> desiredDuration = 1 / 10 \<longrightarrow> safeDuration = 1 / 2"
    using eq by simp
qed

lemma maxDelta_example: "maxDelta [0, 0, 0, 0, 0, 0, 0] [1, 0, 0, 0, 0, 0, 0] = 1"
  unfolding max_delta_loop [symmetric]
  by (simp add: delta_step_def upt_rec)

text \<open>
  Claim C1. For 7-dimensional \<open>start\<close>, \<open>target\<close> and \<open>desiredDuration > 0\<close>,
  \<open>getSafeMovementTime\<close> returns the maximum of \<open>desiredDuration\<close> and
  \<open>maxDelta / 2.0\<close>; the result is at least \<open>desiredDuration\<close>, keeps the rate
  \<open>maxDelta / result\<close> (so every joint's rate) within the cap, is the smallest duration
  from \<open>desiredDuration\<close> on that does so, and for \<open>maxDelta = 1\<close> and
  \<open>desiredDuration = 0.1\<close> it is \<open>0.5\<close>.
\<close>

theorem getSafeMovementTime_safe:
  assumes "length q_start = 7" "length q_end = 7" "0 < desiredDuration"
  shows "fst (getSafeMovementTime q_start q_end desiredDuration) =
           max desiredDuration (maxDelta q_start q_end / 2)
         \<and> desiredDuration \<le> fst (getSafeMovementTime q_start q_end desiredDuration)
         \<and> maxDelta q_start q_end / fst (getSafeMovementTime q_start q_end desiredDuration) \<le> 2
         \<and> (\<forall>i<7. \<bar>q_end ! i - q_start ! i\<bar> /
                     fst (getSafeMovementTime q_start q_end desiredDuration) \<le> 2)
         \<and> (\<forall>d. desiredDuration \<le> d \<and> maxDelta q_start q_end / d \<le> 2 \<longrightarrow>
                  fst (getSafeMovementTime q_start q_end desiredDuration) \<le> d)
         \<and> (maxDelta q_start q_end = 1 \<and> desiredDuration = 1 / 10 \<longrightarrow>
                fst (getSafeMovementTime q_start q_end desiredDuration) = 1 / 2)"
  using safe_duration_parts [OF assms]
  by blast

theorem getSafeMovementTime_safe_witness:
  "length [0, 0, 0, 0, 0, 0, 0 :: real] = 7 \<and> length [1, 0, 0, 0, 0, 0, 0 :: real] = 7
   \<and> (0::real) < 1 / 10
   \<and> maxDelta [0, 0, 0, 0, 0, 0, 0] [1, 0, 0, 0, 0, 0, 0] = 1
   \<and> fst (getSafeMovementTime [0, 0, 0, 0, 0, 0, 0] [1, 0, 0, 0, 0, 0, 0] (1 / 10)) = 1 / 2
   \<and> fst (getSafeMovementTime [0, 0, 0, 0, 0, 0, 0] [1, 0, 0, 0, 0, 0, 0] 10) = 10"
  using getSafeMovementTime_safe [of "[0, 0, 0, 0, 0, 0, 0]" "[1, 0, 0, 0, 0, 0, 0]" "1 / 10"]
    getSafeMovementTime_safe [of "[0, 0, 0, 0, 0, 0, 0]" "[1, 0, 0, 0, 0, 0, 0]" 10]
  by (simp add: maxDelta_example)

text \<open>
  Claim C9. For every \<open>start\<close>, \<open>target\<close> and every real \<open>desiredDuration\<close>, also
  \<open>desiredDuration \<le> 0\<close>, \<open>getSafeMovementTime\<close> returns
  \<open>max(desiredDuration, maxDelta / 2.0)\<close>. The quotient by \<open>desiredDuration\<close> occurs only
  in the warning: the returned duration is a real number even where that quotient does
  not exist. When \<open>start\<close> differs from \<open>target\<close> and \<open>desiredDuration \<le> 0\<close>, the
  result is \<open>maxDelta / 2.0\<close>, which is positive.
\<close>

theorem getSafeMovementTime_any_duration:
  "fst (getSafeMovementTime q_start q_end desiredDuration) =
     max desiredDuration (maxDelta q_start q_end / 2)
   \<and> (\<forall>w. snd (getSafeMovementTime q_start q_end desiredDuration) = Some w \<longrightarrow>
          needed_rate w = divide_checked (maxDelta q_start q_end) desiredDuration
          \<and> increased_time w = fst (getSafeMovementTime q_start q_end desiredDuration))
   \<and> (length q_start = 7 \<and> length q_end = 7 \<and> q_start \<noteq> q_end \<and> desiredDuration \<le> 0 \<longrightarrow>
          fst (getSafeMovementTime q_start q_end desiredDuration) = maxDelta q_start q_end / 2
          \<and> 0 < fst (getSafeMovementTime q_start q_end desiredDuration)
          \<and> (\<exists>w. snd (getSafeMovementTime q_start q_end desiredDuration) = Some w
                 \<and> needed_rate w =
                     (if desiredDuration = 0 then None
                      else Some (maxDelta q_start q_end / desiredDuration))))"
proof (intro conjI allI impI)
  show val: "fst (getSafeMovementTime q_start q_end desiredDuration) =
      max desiredDuration (maxDelta q_start q_end / 2)"
    by (rule getSafeMovementTime_fst)
  {
    fix w
    assume w: "snd (getSafeMovementTime q_start q_end desiredDuration) = Some w"
    from getSafeMovementTime_snd [OF w]
    show "needed_rate w = divide_checked (maxDelta q_start q_end) desiredDuration"
      by simp
    from getSafeMovementTime_snd [OF w]
    show "increased_time w = fst (getSafeMovementTime q_start q_end desiredDuration)"
      by (simp add: val)
  }
  assume h: "length q_start = 7 \<and> length q_end = 7 \<and> q_start \<noteq> q_end \<and> desiredDuration \<le> 0"
  then have pos: "0 < maxDelta q_start q_end"
    by (simp add: maxDelta_pos)
  with h show "fst (getSafeMovementTime q_start q_end desiredDuration) = maxDelta q_start q_end / 2"
    by (simp add: val)
  with pos show "0 < fst (getSafeMovementTime q_start q_end desiredDuration)"
    by simp
  from h pos have lt: "\<not> desiredDuration \<ge> maxDelta q_start q_end / 2"
    by simp
  then show "\<exists>w. snd (getSafeMovementTime q_start q_end desiredDuration) = Some w
      \<and> needed_rate w =
          (if desiredDuration = 0 then None else Some (maxDelta q_start q_end / desiredDuration))"
    by (simp add: getSafeMovementTime_def MAX_JOINT_VELOCITY_def Let_def case_prod_beta
        max_delta_loop divide_checked_def)
qed

theorem getSafeMovementTime_any_duration_witness:
  "length [0, 0, 0, 0, 0, 0, 0 :: real] = 7 \<and> length [1, 0, 0, 0, 0, 0, 0 :: real] = 7
   \<and> [0, 0, 0, 0, 0, 0, 0] \<noteq> [1, 0, 0, 0, 0, 0, 0 :: real] \<and> (0::real) \<le> 0
   \<and> fst (getSafeMovementTime [0, 0, 0, 0, 0, 0, 0] [1, 0, 0, 0, 0, 0, 0] 0) = 1 / 2
   \<and> (\<exists>w. snd (getSafeMovementTime [0, 0, 0, 0, 0, 0, 0] [1, 0, 0, 0, 0, 0, 0] 0) = Some w
          \<and> needed_rate w = None \<and> increased_time w = 1 / 2)
   \<and> fst (getSafeMovementTime [0, 0, 0, 0, 0, 0, 0] [1, 0, 0, 0, 0, 0, 0] (- 1)) = 1 / 2"
  using getSafeMovementTime_any_duration [of "[0, 0, 0, 0, 0, 0, 0]" "[1, 0, 0, 0, 0, 0, 0]" 0]
    getSafeMovementTime_any_duration [of "[0, 0, 0, 0, 0, 0, 0]" "[1, 0, 0, 0, 0, 0, 0]" "- 1"]
  by (auto simp: maxDelta_example)

section \<open>Properties of the control cycle\<close>

lemma control_callback_eq:
  "control_callback q_current q_target safe_duration time_total period =
     (time_total + period,
      \<lparr>q = map_option
             (\<lambda>f. map (\<lambda>i. q_current ! i + f * (q_target ! i - q_current ! i)) [0..<7])
             (quinticPath (time_total + period) safe_duration),
       motion_finished = (time_total + period \<ge> safe_duration * (101 / 100))\<rparr>)"
  by (simp add: control_callback_def Let_def)

lemma exact_arith_ops:
  "fadd exact_arith a b = a + b" "fsub exact_arith a b = a - b" "fmul exact_arith a b = a * b"
  "fdiv exact_arith a b = divide_checked a b" "pw exact_arith u n = u ^ n"
  "rnd exact_arith x = x"
  by (simp_all add: fadd_def fsub_def fmul_def fdiv_def exact_arith_def option.map_ident)

lemma quinticPath_fp_exact: "quinticPath_fp exact_arith t T = quinticPath t T"
  by (simp add: quinticPath_fp_def quinticPath_def exact_arith_ops split: option.splits)

lemma control_callback_fp_exact:
  "control_callback_fp exact_arith q_current q_target safe_duration time_total period =
     control_callback q_current q_target safe_duration time_total period"
  by (simp add: control_callback_fp_def control_callback_def exact_arith_ops
      quinticPath_fp_exact)

lemma quinticPath_fp_cases:
  "quinticPath_fp ar t T =
     Some (if t \<le> 0 then 0 else if t \<ge> T then 1
           else fadd ar (fsub ar (fmul ar 10 (pw ar (rnd ar (t / T)) 3))
                                 (fmul ar 15 (pw ar (rnd ar (t / T)) 4)))
                        (fmul ar 6 (pw ar (rnd ar (t / T)) 5)))"
  by (auto simp: quinticPath_fp_def fdiv_def divide_checked_def)

lemma control_callback_fp_eq:
  "control_callback_fp ar q_current q_target safe_duration time_total period =
     (fadd ar time_total period,
      \<lparr>q = map_option
             (\<lambda>f. map (\<lambda>i. fadd ar (q_current ! i)
                                (fmul ar f (fsub ar (q_target ! i) (q_current ! i)))) [0..<7])
             (quinticPath_fp ar (fadd ar time_total period) safe_duration),
       motion_finished =
         (fadd ar time_total period \<ge> fmul ar safe_duration (rnd ar (101 / 100)))\<rparr>)"
  by (simp add: control_callback_fp_def Let_def)

lemma control_loop_fp_first_finished:
  assumes "N < length periods"
    and "\<forall>k<N. foldl (fadd ar) time_total (take (Suc k) periods)
           < fmul ar safe_duration (rnd ar (101 / 100))"
    and "foldl (fadd ar) time_total (take (Suc N) periods)
           \<ge> fmul ar safe_duration (rnd ar (101 / 100))"
  shows "control_loop (control_callback_fp ar q_current q_target safe_duration) time_total periods =
           (True, map (\<lambda>k. snd (control_callback_fp ar q_current q_target safe_duration
                                 (foldl (fadd ar) time_total (take k periods)) (periods ! k)))
                      [0..<Suc N])"
  using assms
proof (induction periods arbitrary: time_total N)
  case Nil
  then show ?case by simp
next
  case (Cons p ps)
  let ?cb = "control_callback_fp ar q_current q_target safe_duration"
  let ?thr = "fmul ar safe_duration (rnd ar (101 / 100))"
  show ?case
  proof (cases N)
    case 0
    with Cons.prems(3) have "fadd ar time_total p \<ge> ?thr"
      by simp
    with 0 show ?thesis
      by (simp add: control_callback_fp_eq)
  next
    case (Suc M)
    from Cons.prems(2) Suc have notyet: "fadd ar time_total p < ?thr"
      by fastforce
    have M: "M < length ps"
      using Cons.prems(1) Suc by simp
    have before: "\<forall>k<M. foldl (fadd ar) (fadd ar time_total p) (take (Suc k) ps) < ?thr"
    proof (intro allI impI)
      fix k
      assume "k < M"
      then have "Suc k < N"
        using Suc by simp
      with Cons.prems(2) have "foldl (fadd ar) time_total (take (Suc (Suc k)) (p # ps)) < ?thr"
        by blast
      then show "foldl (fadd ar) (fadd ar time_total p) (take (Suc k) ps) < ?thr"
        by simp
    qed
    have reach: "foldl (fadd ar) (fadd ar time_total p) (take (Suc M) ps) \<ge> ?thr"
      using Cons.prems(3) Suc by simp
    have rec: "control_loop ?cb (fadd ar time_total p) ps =
        (True, map (\<lambda>k. snd (?cb (foldl (fadd ar) (fadd ar time_total p) (take k ps)) (ps ! k)))
                 [0..<Suc M])"
      by (rule Cons.IH [OF M before reach])
    have "control_loop ?cb time_total (p # ps) =
        (True, snd (?cb time_total p) #
               map (\<lambda>k. snd (?cb (foldl (fadd ar) (fadd ar time_total p) (take k ps)) (ps ! k)))
                 [0..<Suc M])"
      using notyet rec by (simp add: control_callback_fp_eq)
    also have "snd (?cb time_total p) #
               map (\<lambda>k. snd (?cb (foldl (fadd ar) (fadd ar time_total p) (take k ps)) (ps ! k)))
                 [0..<Suc M] =
        map (\<lambda>k. snd (?cb (foldl (fadd ar) time_total (take k (p # ps))) ((p # ps) ! k)))
          [0..<Suc N]"
      unfolding Suc by (subst (2) map_upt_Suc) simp
    finally show ?thesis .
  qed
qed

lemma elapsed_fp_step:
  "k < length periods \<Longrightarrow>
     fadd ar (foldl (fadd ar) 0 (take k periods)) (periods ! k) = elapsed_fp ar periods k"
  by (simp add: elapsed_fp_def take_Suc_conv_app_nth)


text \<open>
  Claim C2. On every control cycle the callback emits \<open>command\<^sub>i = start\<^sub>i + fraction *
  (target\<^sub>i - start\<^sub>i)\<close> on all 7 axes, with \<open>fraction = s(elapsed, safeDuration)\<close> at
  the accumulated elapsed time, and it signals that the motion is finished if and only if
  \<open>elapsed \<ge> safeDuration * 1.01\<close>, where the sum that accumulates the elapsed time, the
  product \<open>safeDuration * 1.01\<close> and the operations of the command are those of the
  program's arithmetic, whatever its rounding. In a run of the control loop the finished
  signal appears on exactly the first cycle whose accumulated time reaches that product,
  where the loop ends, and on no cycle before.
\<close>

theorem control_cycle_command_and_finish:
  "(\<exists>fraction command.
       fst (control_callback_fp ar start target safeDuration elapsed dt) = fadd ar elapsed dt
       \<and> quinticPath_fp ar (fadd ar elapsed dt) safeDuration = Some fraction
       \<and> q (snd (control_callback_fp ar start target safeDuration elapsed dt)) = Some command
       \<and> length command = 7
       \<and> (\<forall>i<7. command ! i =
              fadd ar (start ! i) (fmul ar fraction (fsub ar (target ! i) (start ! i))))
       \<and> (motion_finished (snd (control_callback_fp ar start target safeDuration elapsed dt))
            \<longleftrightarrow> fadd ar elapsed dt \<ge> fmul ar safeDuration (rnd ar (101 / 100))))
   \<and> (N < length periods
        \<and> (\<forall>k<N. elapsed_fp ar periods k < fmul ar safeDuration (rnd ar (101 / 100)))
        \<and> elapsed_fp ar periods N \<ge> fmul ar safeDuration (rnd ar (101 / 100)) \<longrightarrow>
        (\<exists>outs. control_loop (control_callback_fp ar start target safeDuration) 0 periods =
                  (True, outs)
           \<and> length outs = Suc N
           \<and> (\<forall>k\<le>N. motion_finished (outs ! k) \<longleftrightarrow> k = N)
           \<and> (\<forall>k\<le>N. q (outs ! k) =
                  map_option
                    (\<lambda>f. map (\<lambda>i. fadd ar (start ! i)
                                       (fmul ar f (fsub ar (target ! i) (start ! i)))) [0..<7])
                    (quinticPath_fp ar (elapsed_fp ar periods k) safeDuration))))"
proof (intro conjI impI)
  obtain fraction where fr: "quinticPath_fp ar (fadd ar elapsed dt) safeDuration = Some fraction"
    using quinticPath_fp_cases by blast
  let ?command = "map (\<lambda>i. fadd ar (start ! i)
      (fmul ar fraction (fsub ar (target ! i) (start ! i)))) [0..<7]"
  have "q (snd (control_callback_fp ar start target safeDuration elapsed dt)) = Some ?command"
    by (simp add: control_callback_fp_eq fr)
  moreover have "length ?command = 7"
    by simp
  moreover have "\<forall>i<7. ?command ! i =
      fadd ar (start ! i) (fmul ar fraction (fsub ar (target ! i) (start ! i)))"
    by (auto simp del: upt_Suc)
  ultimately show "\<exists>fraction command.
       fst (control_callback_fp ar start target safeDuration elapsed dt) = fadd ar elapsed dt
       \<and> quinticPath_fp ar (fadd ar elapsed dt) safeDuration = Some fraction
       \<and> q (snd (control_callback_fp ar start target safeDuration elapsed dt)) = Some command
       \<and> length command = 7
       \<and> (\<forall>i<7. command ! i =
              fadd ar (start ! i) (fmul ar fraction (fsub ar (target ! i) (start ! i))))
       \<and> (motion_finished (snd (control_callback_fp ar start target safeDuration elapsed dt))
            \<longleftrightarrow> fadd ar elapsed dt \<ge> fmul ar safeDuration (rnd ar (101 / 100)))"
    using fr by (simp add: control_callback_fp_eq)
next
  let ?thr = "fmul ar safeDuration (rnd ar (101 / 100))"
  assume h: "N < length periods
        \<and> (\<forall>k<N. elapsed_fp ar periods k < ?thr)
        \<and> elapsed_fp ar periods N \<ge> ?thr"
  let ?cb = "control_callback_fp ar start target safeDuration"
  let ?outs = "map (\<lambda>k. snd (?cb (foldl (fadd ar) 0 (take k periods)) (periods ! k))) [0..<Suc N]"
  have run: "control_loop ?cb 0 periods = (True, ?outs)"
    using h by (intro control_loop_fp_first_finished) (simp_all add: elapsed_fp_def)
  have nth: "?outs ! k = snd (?cb (foldl (fadd ar) 0 (take k periods)) (periods ! k))"
    if "k \<le> N" for k
  proof -
    from that have "k < length [0..<Suc N]"
      by simp
    then have "?outs ! k = snd (?cb (foldl (fadd ar) 0 (take ([0..<Suc N] ! k) periods))
        (periods ! ([0..<Suc N] ! k)))"
      by (rule nth_map)
    moreover have "[0..<Suc N] ! k = k"
      using that by (metis add_0 less_Suc_eq_le nth_upt)
    ultimately show ?thesis
      by simp
  qed
  have fin: "motion_finished (?outs ! k) \<longleftrightarrow> k = N" if "k \<le> N" for k
  proof -
    have "k < length periods"
      using that h by simp
    then have e: "fadd ar (foldl (fadd ar) 0 (take k periods)) (periods ! k) =
        elapsed_fp ar periods k"
      by (rule elapsed_fp_step)
    have "motion_finished (?outs ! k) \<longleftrightarrow> elapsed_fp ar periods k \<ge> ?thr"
      by (subst nth [OF that]) (simp add: control_callback_fp_eq e)
    also have "\<dots> \<longleftrightarrow> k = N"
      using that h by (cases "k = N") (auto simp: not_le)
    finally show ?thesis .
  qed
  have cmd: "q (?outs ! k) =
      map_option (\<lambda>f. map (\<lambda>i. fadd ar (start ! i)
                                  (fmul ar f (fsub ar (target ! i) (start ! i)))) [0..<7])
        (quinticPath_fp ar (elapsed_fp ar periods k) safeDuration)" if "k \<le> N" for k
  proof -
    have "k < length periods"
      using that h by simp
    then have e: "fadd ar (foldl (fadd ar) 0 (take k periods)) (periods ! k) =
        elapsed_fp ar periods k"
      by (rule elapsed_fp_step)
    show ?thesis
      by (subst nth [OF that]) (simp add: control_callback_fp_eq e)
  qed
  have "length ?outs = Suc N"
    by simp
  with run fin cmd show "\<exists>outs. control_loop ?cb 0 periods = (True, outs)
           \<and> length outs = Suc N
           \<and> (\<forall>k\<le>N. motion_finished (outs ! k) \<longleftrightarrow> k = N)
           \<and> (\<forall>k\<le>N. q (outs ! k) =
                  map_option
                    (\<lambda>f. map (\<lambda>i. fadd ar (start ! i)
                                       (fmul ar f (fsub ar (target ! i) (start ! i)))) [0..<7])
                    (quinticPath_fp ar (elapsed_fp ar periods k) safeDuration))"
    by blast
qed

lemma round64_literals:
  "round64 (1 / 1000) = 1152921504606847 / 2 ^ 60"
  "round64 (3 / 1000) = 3458764513820541 / 2 ^ 60"
  "round64 (1 / 10) = 3602879701896397 / 2 ^ 55"
  "round64 (101 / 100) = 4548635623644201 / 2 ^ 52"
  by (simp_all add: fp_eval)

lemma quinticPath_binary64_third:
  "quinticPath_fp binary64 (1152921504606847 / 2 ^ 60) (3458764513820541 / 2 ^ 60) =
     Some (7561599374350461 / 2 ^ 55)"
  "quinticPath_fp binary64 1 3 = Some (7561599374350461 / 2 ^ 55)"
  by (simp_all add: quinticPath_fp_def fp_ops fp_eval)

lemma quinticPath_binary64_two_thirds:
  "quinticPath_fp binary64 (1152921504606847 / 2 ^ 59) (3458764513820541 / 2 ^ 60) =
     Some (3558399705576687 / 2 ^ 52)"
  "quinticPath_fp binary64 2 3 = Some (3558399705576687 / 2 ^ 52)"
  by (simp_all add: quinticPath_fp_def fp_ops fp_eval)

lemma quinticPath_binary64_near_end:
  "quinticPath_fp binary64 (9007199254740499 / 2 ^ 52) 2 = Some (1125899906842625 / 2 ^ 50)"
  by (simp add: quinticPath_fp_def fp_ops fp_eval)

theorem control_cycle_command_and_finish_witness:
  "elapsed_fp binary64 [0, 1152921504606847 / 2 ^ 60, 1152921504606847 / 2 ^ 60,
       1152921504606847 / 2 ^ 60, 1152921504606847 / 2 ^ 60, 1152921504606847 / 2 ^ 60] 3 =
     3458764513820541 / 2 ^ 60
   \<and> elapsed_fp binary64 [0, 1152921504606847 / 2 ^ 60, 1152921504606847 / 2 ^ 60,
       1152921504606847 / 2 ^ 60, 1152921504606847 / 2 ^ 60, 1152921504606847 / 2 ^ 60] 4 =
     1152921504606847 / 2 ^ 58
   \<and> fmul binary64 (3458764513820541 / 2 ^ 60) (rnd binary64 (101 / 100)) =
       6986704317917493 / 2 ^ 61
   \<and> control_loop
        (control_callback_fp binary64 [1 / 2, 0, 0, 0, 0, 0, 0] [1, 0, 0, 0, 0, 0, 0]
           (3458764513820541 / 2 ^ 60)) 0
        [0, 1152921504606847 / 2 ^ 60, 1152921504606847 / 2 ^ 60,
         1152921504606847 / 2 ^ 60, 1152921504606847 / 2 ^ 60, 1152921504606847 / 2 ^ 60] =
       (True,
        [\<lparr>q = Some [1 / 2, 0, 0, 0, 0, 0, 0], motion_finished = False\<rparr>,
         \<lparr>q = Some [340549971822769 / 2 ^ 49, 0, 0, 0, 0, 0, 0], motion_finished = False\<rparr>,
         \<lparr>q = Some [8061999332947183 / 2 ^ 53, 0, 0, 0, 0, 0, 0], motion_finished = False\<rparr>,
         \<lparr>q = Some [1, 0, 0, 0, 0, 0, 0], motion_finished = False\<rparr>,
         \<lparr>q = Some [1, 0, 0, 0, 0, 0, 0], motion_finished = True\<rparr>])"
proof -
  let ?p = "1152921504606847 / 2 ^ 60 :: real"
  let ?S = "3458764513820541 / 2 ^ 60 :: real"
  let ?ps = "[0, ?p, ?p, ?p, ?p, ?p]"
  have thr: "fmul binary64 ?S (rnd binary64 (101 / 100)) = 6986704317917493 / 2 ^ 61"
    by (simp add: fp_ops fp_eval)
  have e0: "elapsed_fp binary64 ?ps 0 = 0"
    and e1: "elapsed_fp binary64 ?ps (Suc 0) = ?p"
    and e2: "elapsed_fp binary64 ?ps (Suc (Suc 0)) = 1152921504606847 / 2 ^ 59"
    and e3: "elapsed_fp binary64 ?ps (Suc (Suc (Suc 0))) = ?S"
    and e4: "elapsed_fp binary64 ?ps (Suc (Suc (Suc (Suc 0)))) = 1152921504606847 / 2 ^ 58"
    by (simp_all add: elapsed_fp_def fp_ops fp_eval)
  have before: "\<forall>k<Suc (Suc (Suc (Suc 0))). elapsed_fp binary64 ?ps k
      < fmul binary64 ?S (rnd binary64 (101 / 100))"
    unfolding thr using e0 e1 e2 e3 by (simp add: All_less_Suc)
  have reach: "elapsed_fp binary64 ?ps (Suc (Suc (Suc (Suc 0))))
      \<ge> fmul binary64 ?S (rnd binary64 (101 / 100))"
    unfolding thr e4 by simp
  have len: "Suc (Suc (Suc (Suc 0))) < length ?ps"
    by simp
  from control_cycle_command_and_finish
    [of binary64 "[1 / 2, 0, 0, 0, 0, 0, 0]" "[1, 0, 0, 0, 0, 0, 0]" ?S 0 0
      "Suc (Suc (Suc (Suc 0)))" ?ps] len before reach
  obtain outs where outs: "control_loop
      (control_callback_fp binary64 [1 / 2, 0, 0, 0, 0, 0, 0] [1, 0, 0, 0, 0, 0, 0] ?S) 0 ?ps =
      (True, outs)" "length outs = Suc (Suc (Suc (Suc (Suc 0))))"
    by blast
  have run: "control_loop
      (control_callback_fp binary64 [1 / 2, 0, 0, 0, 0, 0, 0] [1, 0, 0, 0, 0, 0, 0] ?S) 0 ?ps =
      (True,
        [\<lparr>q = Some [1 / 2, 0, 0, 0, 0, 0, 0], motion_finished = False\<rparr>,
         \<lparr>q = Some [340549971822769 / 2 ^ 49, 0, 0, 0, 0, 0, 0], motion_finished = False\<rparr>,
         \<lparr>q = Some [8061999332947183 / 2 ^ 53, 0, 0, 0, 0, 0, 0], motion_finished = False\<rparr>,
         \<lparr>q = Some [1, 0, 0, 0, 0, 0, 0], motion_finished = False\<rparr>,
         \<lparr>q = Some [1, 0, 0, 0, 0, 0, 0], motion_finished = True\<rparr>])"
    by (simp add: control_callback_fp_eq quinticPath_fp_def fp_ops fp_eval upt_rec)
  from e3 e4 thr run show ?thesis
    by (simp add: eval_nat_numeral)
qed

section \<open>Recovery and retry in \<^verbatim>\<open>moveJoints\<close>\<close>

declare moveJoints.simps [simp del]

lemma moveJoints_without_recovery:
  "moveJoints hw calls q_target desired_duration False =
     (case moveJoints_try hw calls q_target desired_duration of
        (Some actual_duration, calls1) \<Rightarrow> (actual_duration, calls1)
      | (None, calls1) \<Rightarrow> (- 1, calls1))"
  by (subst moveJoints.simps) (simp split: prod.splits option.splits)

lemma moveJoints_with_recovery:
  "moveJoints hw calls q_target desired_duration True =
     (case moveJoints_try hw calls q_target desired_duration of
        (Some actual_duration, calls1) \<Rightarrow> (actual_duration, calls1)
      | (None, calls1) \<Rightarrow>
          moveJoints hw (recoverRobot hw calls1) q_target desired_duration False)"
  by (subst moveJoints.simps) (simp split: prod.splits option.splits)

lemma moveJoints_try_calls:
  "\<exists>ext. snd (moveJoints_try hw calls q_target desired_duration) = calls @ ext
     \<and> count_list ext ReadOnce = 1 \<and> count_list ext Control \<le> 1
     \<and> count_list ext AutomaticErrorRecovery = 0"
  by (auto simp: moveJoints_try_def readOnce_def now_def control_def sleep_for_def Let_def
      split: option.splits)

lemma recoverRobot_calls:
  "\<exists>ext. recoverRobot hw calls = calls @ ext
     \<and> count_list ext ReadOnce = 0 \<and> count_list ext Control = 0
     \<and> count_list ext AutomaticErrorRecovery = 1"
  by (auto simp: recoverRobot_def automaticErrorRecovery_def sleep_for_def Let_def)


lemma moveJoints_calls:
  "\<exists>ext. snd (moveJoints hw calls q_target desired_duration recover_on_error) = calls @ ext
     \<and> count_list ext ReadOnce \<le> 2 \<and> count_list ext Control \<le> 2
     \<and> count_list ext AutomaticErrorRecovery \<le> 1
     \<and> (\<not> recover_on_error \<longrightarrow>
          count_list ext ReadOnce = 1 \<and> count_list ext AutomaticErrorRecovery = 0)
     \<and> (recover_on_error \<and> fst (moveJoints_try hw calls q_target desired_duration) = None \<longrightarrow>
          count_list ext ReadOnce = 2 \<and> count_list ext AutomaticErrorRecovery = 1)"
proof -
  obtain r1 calls1 where try1: "moveJoints_try hw calls q_target desired_duration = (r1, calls1)"
    by (cases "moveJoints_try hw calls q_target desired_duration")
  obtain e1 where e1: "calls1 = calls @ e1" "count_list e1 ReadOnce = 1"
      "count_list e1 Control \<le> 1" "count_list e1 AutomaticErrorRecovery = 0"
    using moveJoints_try_calls [of hw calls q_target desired_duration] try1 by auto
  show ?thesis
  proof (cases "recover_on_error \<and> r1 = None")
    case False
    then have "snd (moveJoints hw calls q_target desired_duration recover_on_error) = calls1"
      using try1
      by (cases recover_on_error)
        (auto simp: moveJoints_without_recovery moveJoints_with_recovery split: option.splits)
    with e1 False try1 show ?thesis
      by auto
  next
    case True
    obtain e2 where e2: "recoverRobot hw calls1 = calls1 @ e2" "count_list e2 ReadOnce = 0"
        "count_list e2 Control = 0" "count_list e2 AutomaticErrorRecovery = 1"
      using recoverRobot_calls [of hw calls1] by auto
    obtain r3 calls3 where try2:
        "moveJoints_try hw (recoverRobot hw calls1) q_target desired_duration = (r3, calls3)"
      by (cases "moveJoints_try hw (recoverRobot hw calls1) q_target desired_duration")
    obtain e3 where e3: "calls3 = recoverRobot hw calls1 @ e3" "count_list e3 ReadOnce = 1"
        "count_list e3 Control \<le> 1" "count_list e3 AutomaticErrorRecovery = 0"
      using moveJoints_try_calls [of hw "recoverRobot hw calls1" q_target desired_duration] try2
      by auto
    have "snd (moveJoints hw calls q_target desired_duration recover_on_error) = calls3"
      using True try1 try2
      by (auto simp: moveJoints_without_recovery moveJoints_with_recovery split: option.splits)
    then have "snd (moveJoints hw calls q_target desired_duration recover_on_error) =
        calls @ (e1 @ e2 @ e3)"
      using e1(1) e2(1) e3(1) by simp
    moreover have "count_list (e1 @ e2 @ e3) ReadOnce = 2"
        "count_list (e1 @ e2 @ e3) Control \<le> 2"
        "count_list (e1 @ e2 @ e3) AutomaticErrorRecovery = 1"
      using e1 e2 e3 by simp_all
    ultimately show ?thesis
      using True by (intro exI [of _ "e1 @ e2 @ e3"]) simp
  qed
qed

text \<open>
  Claim C5. When a move attempt faults, \<^verbatim>\<open>moveJoints\<close> performs the recovery and then
  retries the move once, with retry disabled on the nested attempt: a move makes at most
  two attempts. If the retry faults too, the result is \<open>-1\<close> and nothing further is
  tried within that move.
\<close>

theorem moveJoints_retries_once:
  "(moveJoints_try hw calls q_target duration = (None, calls1) \<longrightarrow>
      moveJoints hw calls q_target duration True =
        moveJoints hw (recoverRobot hw calls1) q_target duration False
      \<and> (\<forall>calls2. moveJoints_try hw (recoverRobot hw calls1) q_target duration = (None, calls2) \<longrightarrow>
             moveJoints hw calls q_target duration True = (- 1, calls2))
      \<and> (\<forall>a calls2. moveJoints_try hw (recoverRobot hw calls1) q_target duration = (Some a, calls2) \<longrightarrow>
             moveJoints hw calls q_target duration True = (a, calls2))
      \<and> (\<exists>ext. snd (moveJoints hw calls q_target duration True) = calls @ ext
             \<and> count_list ext ReadOnce = 2 \<and> count_list ext AutomaticErrorRecovery = 1
             \<and> count_list ext Control \<le> 2)
      \<and> moveJoints hw calls q_target duration False = (- 1, calls1))
   \<and> (\<exists>ext. snd (moveJoints hw calls q_target duration False) = calls @ ext
          \<and> count_list ext ReadOnce = 1 \<and> count_list ext AutomaticErrorRecovery = 0)
   \<and> (\<exists>ext. snd (moveJoints hw calls q_target duration recover_on_error) = calls @ ext
          \<and> count_list ext ReadOnce \<le> 2 \<and> count_list ext Control \<le> 2
          \<and> count_list ext AutomaticErrorRecovery \<le> 1)"
proof (intro conjI impI allI)
  show "\<exists>ext. snd (moveJoints hw calls q_target duration False) = calls @ ext
          \<and> count_list ext ReadOnce = 1 \<and> count_list ext AutomaticErrorRecovery = 0"
    using moveJoints_calls [of hw calls q_target duration False] by auto
  show "\<exists>ext. snd (moveJoints hw calls q_target duration recover_on_error) = calls @ ext
          \<and> count_list ext ReadOnce \<le> 2 \<and> count_list ext Control \<le> 2
          \<and> count_list ext AutomaticErrorRecovery \<le> 1"
    using moveJoints_calls [of hw calls q_target duration recover_on_error] by auto
next
  assume f: "moveJoints_try hw calls q_target duration = (None, calls1)"
  show first: "moveJoints hw calls q_target duration True =
      moveJoints hw (recoverRobot hw calls1) q_target duration False"
    by (simp add: moveJoints_with_recovery f)
  show "moveJoints hw calls q_target duration False = (- 1, calls1)"
    by (simp add: moveJoints_without_recovery f)
  show "\<exists>ext. snd (moveJoints hw calls q_target duration True) = calls @ ext
      \<and> count_list ext ReadOnce = 2 \<and> count_list ext AutomaticErrorRecovery = 1
      \<and> count_list ext Control \<le> 2"
    using moveJoints_calls [of hw calls q_target duration True] f by auto
  {
    fix calls2
    assume "moveJoints_try hw (recoverRobot hw calls1) q_target duration = (None, calls2)"
    then show "moveJoints hw calls q_target duration True = (- 1, calls2)"
      by (simp add: first moveJoints_without_recovery)
  }
  {
    fix a calls2
    assume "moveJoints_try hw (recoverRobot hw calls1) q_target duration = (Some a, calls2)"
    then show "moveJoints hw calls q_target duration True = (a, calls2)"
      by (simp add: first moveJoints_without_recovery)
  }
qed


lemmas run_defs =
  moveJoints_with_recovery moveJoints_without_recovery moveJoints_try_def readOnce_def now_def
  control_def recoverRobot_def automaticErrorRecovery_def sleep_for_def example_hardware_def
  getSafeMovementTime_fst maxDelta_example control_callback_eq quinticPath_cases Let_def

theorem moveJoints_retries_once_witness:
  "moveJoints_try (example_hardware 2) [] [1, 0, 0, 0, 0, 0, 0] (1 / 10) =
     (None, [ReadOnce, ClockNow, Control])
   \<and> moveJoints (example_hardware 2) [] [1, 0, 0, 0, 0, 0, 0] (1 / 10) True =
       (- 1, [ReadOnce, ClockNow, Control, AutomaticErrorRecovery, ReadOnce, ClockNow, Control])
   \<and> moveJoints (example_hardware 1) [] [1, 0, 0, 0, 0, 0, 0] (1 / 10) True =
       (1, [ReadOnce, ClockNow, Control, AutomaticErrorRecovery,
            ReadOnce, ClockNow, Control, ClockNow, SleepFor 100])"
proof -
  have first: "moveJoints_try (example_hardware 2) [] [1, 0, 0, 0, 0, 0, 0] (1 / 10) =
      (None, [ReadOnce, ClockNow, Control])"
    by (simp add: run_defs)
  have first': "moveJoints_try (example_hardware 1) [] [1, 0, 0, 0, 0, 0, 0] (1 / 10) =
      (None, [ReadOnce, ClockNow, Control])"
    by (simp add: run_defs)
  have again: "moveJoints_try (example_hardware 2)
      (recoverRobot (example_hardware 2) [ReadOnce, ClockNow, Control])
      [1, 0, 0, 0, 0, 0, 0] (1 / 10) =
      (None, [ReadOnce, ClockNow, Control, AutomaticErrorRecovery, ReadOnce, ClockNow, Control])"
    by (simp add: run_defs)
  have again': "moveJoints_try (example_hardware 1)
      (recoverRobot (example_hardware 1) [ReadOnce, ClockNow, Control])
      [1, 0, 0, 0, 0, 0, 0] (1 / 10) =
      (Some 1, [ReadOnce, ClockNow, Control, AutomaticErrorRecovery,
                ReadOnce, ClockNow, Control, ClockNow, SleepFor 100])"
    by (simp add: run_defs)
  from moveJoints_retries_once
    [of "example_hardware 2" "[]" "[1, 0, 0, 0, 0, 0, 0]" "1 / 10" "[ReadOnce, ClockNow, Control]"]
    first again
  have "moveJoints (example_hardware 2) [] [1, 0, 0, 0, 0, 0, 0] (1 / 10) True =
      (- 1, [ReadOnce, ClockNow, Control, AutomaticErrorRecovery, ReadOnce, ClockNow, Control])"
    by blast
  moreover from moveJoints_retries_once
    [of "example_hardware 1" "[]" "[1, 0, 0, 0, 0, 0, 0]" "1 / 10" "[ReadOnce, ClockNow, Control]"]
    first' again'
  have "moveJoints (example_hardware 1) [] [1, 0, 0, 0, 0, 0, 0] (1 / 10) True =
      (1, [ReadOnce, ClockNow, Control, AutomaticErrorRecovery,
           ReadOnce, ClockNow, Control, ClockNow, SleepFor 100])"
    by blast
  ultimately show ?thesis
    using first by simp
qed

text \<open>
  Claim C3 says that a move request with \<open>desiredDuration \<le> 0\<close> is rejected before the
  safe duration is calculated. The source has no such check: with the requested duration
  \<open>-1\<close> the safe duration is calculated (\<open>0.5\<close> for a joint that moves by 1), the control
  loop runs and \<^verbatim>\<open>moveJoints\<close> returns the measured duration.
\<close>

theorem moveJoints_nonpositive_duration_counterexample:
  "fst (getSafeMovementTime [0, 0, 0, 0, 0, 0, 0] [1, 0, 0, 0, 0, 0, 0] (- 1)) = 1 / 2
   \<and> moveJoints (example_hardware 0) [] [1, 0, 0, 0, 0, 0, 0] (- 1) True =
       (1, [ReadOnce, ClockNow, Control, ClockNow, SleepFor 100])"
  by (simp add: run_defs)

text \<open>
  Claim C3 as amended. For a move request with \<open>desiredDuration \<le> 0\<close> nothing is
  rejected: the safe duration is calculated and is \<open>maxDelta / 2.0\<close>, which is not
  negative and does not depend on a quotient by the requested duration, and the attempt
  runs exactly as the attempt for the requested duration \<open>maxDelta / 2.0\<close> does.
\<close>

theorem moveJoints_nonpositive_duration:
  assumes "desiredDuration \<le> 0"
  shows "fst (getSafeMovementTime q_current q_target desiredDuration) =
           maxDelta q_current q_target / 2
         \<and> 0 \<le> fst (getSafeMovementTime q_current q_target desiredDuration)
         \<and> (readOnce_result hw (count_list calls ReadOnce) = Some q_current \<longrightarrow>
              moveJoints_try hw calls q_target desiredDuration =
              moveJoints_try hw calls q_target (maxDelta q_current q_target / 2))"
proof -
  have m: "0 \<le> maxDelta q_current q_target / 2"
    using maxDelta_nonneg [of q_current q_target] by simp
  with assms have "max desiredDuration (maxDelta q_current q_target / 2) =
      maxDelta q_current q_target / 2"
    by simp
  then show ?thesis
    using m by (simp add: moveJoints_try_def readOnce_def getSafeMovementTime_fst)
qed

theorem moveJoints_nonpositive_duration_witness:
  "(- 1 :: real) \<le> 0
   \<and> readOnce_result (example_hardware 0) (count_list [] ReadOnce) = Some [0, 0, 0, 0, 0, 0, 0]
   \<and> fst (getSafeMovementTime [0, 0, 0, 0, 0, 0, 0] [1, 0, 0, 0, 0, 0, 0] (- 1)) = 1 / 2
   \<and> moveJoints_try (example_hardware 0) [] [1, 0, 0, 0, 0, 0, 0] (- 1) =
       moveJoints_try (example_hardware 0) [] [1, 0, 0, 0, 0, 0, 0] (1 / 2)"
  using moveJoints_nonpositive_duration
    [of "- 1" "[0, 0, 0, 0, 0, 0, 0]" "[1, 0, 0, 0, 0, 0, 0]" "example_hardware 0" "[]"]
  by (simp add: maxDelta_example example_hardware_def)

section \<open>Properties of the configuration reader\<close>

declare read_joints.simps [simp del]

lemma extract_from_failed:
  "failbit iss \<Longrightarrow> extract_from p iss x = (x, iss)"
  by (simp add: extract_from_def)

lemma extract_from_field_None:
  "\<not> failbit iss \<Longrightarrow> field p (unread iss) = None \<Longrightarrow> failbit (snd (extract_from p iss x))"
  by (auto simp: extract_from_def field_def split: num_get.splits option.splits if_splits)

lemma extract_from_field_Some:
  "\<not> failbit iss \<Longrightarrow> field p (unread iss) = Some (v, rest) \<Longrightarrow>
     extract_from p iss x = (v, iss\<lparr>unread := rest\<rparr>)"
  by (auto simp: extract_from_def field_def split: num_get.splits option.splits if_splits)

lemma read_joints_failed:
  "failbit iss \<Longrightarrow> failbit (snd (read_joints get_double i js iss))"
proof (induction get_double i js iss rule: read_joints.induct)
  case (1 get_double i js iss)
  show ?case
  proof (cases "i < 7")
    case True
    with 1 show ?thesis
      by (subst read_joints.simps) (simp add: extract_from_failed)
  next
    case False
    with 1 show ?thesis
      by (subst read_joints.simps) simp
  qed
qed

lemma read_joints_fields:
  "\<not> failbit iss \<Longrightarrow> i \<le> 7 \<Longrightarrow> length js = 7 \<Longrightarrow>
     (case field_seq (7 - i) get_double (unread iss) of
        None \<Rightarrow> failbit (snd (read_joints get_double i js iss))
      | Some (vs, rest) \<Rightarrow>
          read_joints get_double i js iss = (take i js @ vs, iss\<lparr>unread := rest\<rparr>))"
proof (induction get_double i js iss rule: read_joints.induct)
  case (1 get_double i js iss)
  show ?case
  proof (cases "i < 7")
    case False
    with 1 show ?thesis
      by (subst read_joints.simps, subst read_joints.simps) simp
  next
    case True
    then have n: "7 - i = Suc (7 - Suc i)"
      by simp
    show ?thesis
    proof (cases "field get_double (unread iss)")
      case None
      then have "failbit (snd (extract_from get_double iss (js ! i)))"
        using 1(2) by (simp add: extract_from_field_None)
      then have "failbit (snd (read_joints get_double (Suc i) (js[i := fst (extract_from get_double iss (js ! i))])
          (snd (extract_from get_double iss (js ! i)))))"
        by (rule read_joints_failed)
      then have "failbit (snd (read_joints get_double i js iss))"
        using True by (subst read_joints.simps) (simp add: case_prod_beta)
      with None show ?thesis
        by (simp add: n)
    next
      case (Some a)
      obtain v rest where a: "a = (v, rest)"
        by (cases a)
      have ex: "extract_from get_double iss (js ! i) = (v, iss\<lparr>unread := rest\<rparr>)"
        using 1(2) Some a by (simp add: extract_from_field_Some)
      have step: "read_joints get_double i js iss =
          read_joints get_double (Suc i) (js[i := v]) (iss\<lparr>unread := rest\<rparr>)"
        using True by (subst read_joints.simps) (simp add: ex)
      have IH: "case field_seq (7 - Suc i) get_double rest of
          None \<Rightarrow> failbit (snd (read_joints get_double (Suc i) (js[i := v]) (iss\<lparr>unread := rest\<rparr>)))
        | Some (vs, rest') \<Rightarrow>
            read_joints get_double (Suc i) (js[i := v]) (iss\<lparr>unread := rest\<rparr>) =
              (take (Suc i) (js[i := v]) @ vs, iss\<lparr>unread := rest'\<rparr>)"
        using 1(1) [OF True ex [symmetric] refl] 1(2) 1(4) True by (auto split: option.splits)
      have tk: "take (Suc i) (js[i := v]) = take i js @ [v]"
        using True 1(4) by (simp add: take_Suc_conv_app_nth)
      show ?thesis
        using IH by (auto simp: n Some a step tk split: option.splits prod.splits)
    qed
  qed
qed


lemma read_line_parse_move:
  assumes "length (joints move) = 7"
    and "\<forall>s. \<exists>z. get_int (CHR ''#'' # s) = NoConversion z"
  shows "read_line get_int get_double move line dance_moves =
           (case parse_move get_int get_double line of
              None \<Rightarrow> dance_moves
            | Some m \<Rightarrow> dance_moves @ [m])"
proof (cases "line = [] \<or> hd line = CHR ''#''")
  case True
  then have "field get_int line = None"
  proof
    assume "line = []"
    then show ?thesis by (simp add: field_def)
  next
    assume h: "hd line = CHR ''#''"
    show ?thesis
    proof (cases line)
      case Nil
      then show ?thesis by (simp add: field_def)
    next
      case (Cons c s)
      with h assms(2) obtain z where "get_int line = NoConversion z"
        by auto
      then show ?thesis by (simp add: field_def)
    qed
  qed
  with True show ?thesis
    by (simp add: read_line_def parse_move_def)
next
  case False
  let ?iss = "\<lparr>unread = line, failbit = False\<rparr>"
  show ?thesis
  proof (cases "field get_int line")
    case None
    then have "failbit (snd (extract_from get_int ?iss (move_index move)))"
      by (simp add: extract_from_field_None)
    with False None show ?thesis
      by (simp add: read_line_def parse_move_def case_prod_beta)
  next
    case (Some a)
    obtain idx rest where a: "a = (idx, rest)"
      by (cases a)
    let ?iss1 = "\<lparr>unread = rest, failbit = False\<rparr>"
    have e1: "extract_from get_int ?iss (move_index move) = (idx, ?iss1)"
      using Some a extract_from_field_Some [of ?iss get_int idx rest] by simp
    have js: "case field_seq 7 get_double rest of
        None \<Rightarrow> failbit (snd (read_joints get_double 0 (joints move) ?iss1))
      | Some (vs, rest') \<Rightarrow>
          read_joints get_double 0 (joints move) ?iss1 = (vs, ?iss1\<lparr>unread := rest'\<rparr>)"
      using read_joints_fields [of ?iss1 0 "joints move" get_double] assms(1)
      by (auto split: option.splits)
    show ?thesis
    proof (cases "field_seq 7 get_double rest")
      case None
      with js have "failbit (snd (read_joints get_double 0 (joints move) ?iss1))"
        by simp
      then have "failbit (snd (extract_from get_double
          (snd (read_joints get_double 0 (joints move) ?iss1)) (move_time move)))"
        by (simp add: extract_from_failed)
      with False Some a None show ?thesis
        by (simp add: read_line_def parse_move_def e1 case_prod_beta)
    next
      case (Some b)
      obtain vs rest' where b: "b = (vs, rest')"
        by (cases b)
      let ?iss2 = "\<lparr>unread = rest', failbit = False\<rparr>"
      have e2: "read_joints get_double 0 (joints move) ?iss1 = (vs, ?iss2)"
        using js Some b by simp
      show ?thesis
      proof (cases "field get_double rest'")
        case None
        then have "failbit (snd (extract_from get_double ?iss2 (move_time move)))"
          by (simp add: extract_from_field_None)
        with False \<open>field get_int line = Some a\<close> a Some b None show ?thesis
          by (simp add: read_line_def parse_move_def e1 e2 case_prod_beta)
      next
        case (Some c)
        obtain mt rest'' where c: "c = (mt, rest'')"
          by (cases c)
        have e3: "extract_from get_double ?iss2 (move_time move) =
            (mt, \<lparr>unread = rest'', failbit = False\<rparr>)"
          using Some c extract_from_field_Some [of ?iss2 get_double mt rest''] by simp
        from False \<open>field get_int line = Some a\<close> a \<open>field_seq 7 get_double rest = Some b\<close> b
          Some c show ?thesis
          by (simp add: read_line_def parse_move_def e1 e2 e3)
      qed
    qed
  qed
qed

lemma fold_read_line:
  assumes "length (joints move) = 7"
    and "\<forall>s. \<exists>z. get_int (CHR ''#'' # s) = NoConversion z"
  shows "fold (read_line get_int get_double move) lines dance_moves =
           dance_moves @ List.map_filter (parse_move get_int get_double) lines"
proof (induction lines arbitrary: dance_moves)
  case Nil
  show ?case by (simp add: List.map_filter_simps)
next
  case (Cons line lines)
  have "fold (read_line get_int get_double move) (line # lines) dance_moves =
      fold (read_line get_int get_double move) lines
        (read_line get_int get_double move line dance_moves)"
    by simp
  also have "\<dots> = read_line get_int get_double move line dance_moves @
      List.map_filter (parse_move get_int get_double) lines"
    by (rule Cons.IH)
  also have "\<dots> = dance_moves @ List.map_filter (parse_move get_int get_double) (line # lines)"
    by (simp add: read_line_parse_move [OF assms] List.map_filter_simps split: option.splits)
  finally show ?case .
qed


lemmas get_eval =
  decimal_int_def decimal_double_def skip_sign_def is_space_def is_digit_def digits_value_def

lemma decimal_int_hash: "\<forall>s. \<exists>z. decimal_int (CHR ''#'' # s) = NoConversion z"
  by (simp add: get_eval)

lemma parse_move_good:
  "parse_move decimal_int decimal_double ''1 0 -0.5 0 0.1 0 1.5 0 2'' =
     Some \<lparr>move_index = 1,
           joints = [0, - 1 / 2, 0, 3602879701896397 / 2 ^ 55, 0, 3 / 2, 0], move_time = 2\<rparr>"
  by (simp add: parse_move_def field_def get_eval fp_eval eval_nat_numeral)

lemma parse_move_bad:
  "parse_move decimal_int decimal_double ''2 0 0 x 0 0 0 0 3'' = None"
  by (simp add: parse_move_def field_def get_eval fp_eval eval_nat_numeral)

lemma parse_move_shifted:
  "parse_move decimal_int decimal_double ''1.5 0 0 0 0 0 0 0 2'' =
     Some \<lparr>move_index = 1, joints = [1 / 2, 0, 0, 0, 0, 0, 0], move_time = 0\<rparr>"
  by (simp add: parse_move_def field_def get_eval fp_eval eval_nat_numeral)

text \<open>
  Claim C4 says that a line on which a field is missing or malformed contributes no move.
  On the line \<^verbatim>\<open>1.5 0 0 0 0 0 0 0 2\<close> the index field \<^verbatim>\<open>1.5\<close> is no integer, so the
  line is not of the specified form; the source reads the index \<open>1\<close> from it, then
  \<^verbatim>\<open>.5\<close> as the first joint, six zeros as the other joints and the last zero as the
  move time, and appends that move.
\<close>

theorem read_line_malformed_field_counterexample:
  "well_formed_move decimal_int decimal_double ''1.5 0 0 0 0 0 0 0 2'' = None
   \<and> read_line decimal_int decimal_double
        \<lparr>move_index = 7, joints = [9, 9, 9, 9, 9, 9, 9], move_time = 9\<rparr>
        ''1.5 0 0 0 0 0 0 0 2'' [] =
       [\<lparr>move_index = 1, joints = [1 / 2, 0, 0, 0, 0, 0, 0], move_time = 0\<rparr>]"
proof -
  have "well_formed_move decimal_int decimal_double ''1.5 0 0 0 0 0 0 0 2'' = None"
    by (simp add: well_formed_move_def whole_field_def get_eval)
  moreover have "read_line decimal_int decimal_double
      \<lparr>move_index = 7, joints = [9, 9, 9, 9, 9, 9, 9], move_time = 9\<rparr>
      ''1.5 0 0 0 0 0 0 0 2'' [] =
      [\<lparr>move_index = 1, joints = [1 / 2, 0, 0, 0, 0, 0, 0], move_time = 0\<rparr>]"
    using decimal_int_hash by (subst read_line_parse_move) (simp_all add: parse_move_shifted)
  ultimately show ?thesis
    by simp
qed

text \<open>
  Claim C4 as amended. A line of the configuration appends a move if and only if the
  nine extractions from its stream (the move index, 7 joint values, the move time)
  succeed one after the other, each taking the longest numeric prefix of the unread text
  after leading white space and not a whole whitespace-separated field; then the move
  appended holds exactly the extracted values. A line on which any extraction fails
  leaves the sequence as it was, never a partial record: after a joint that fails, the
  fail bit makes every later extraction on the line fail too, the move time included.
  Where a number ends inside a field, and what follows the ninth number, is not checked.
\<close>

theorem read_line_whole_move_or_nothing:
  assumes "length (joints move) = 7"
    and "\<forall>s. \<exists>z. get_int (CHR ''#'' # s) = NoConversion z"
  shows "(\<forall>m. parse_move get_int get_double line = Some m \<longrightarrow>
            read_line get_int get_double move line dance_moves = dance_moves @ [m])
         \<and> (parse_move get_int get_double line = None \<longrightarrow>
              read_line get_int get_double move line dance_moves = dance_moves)
         \<and> (read_line get_int get_double move line dance_moves \<noteq> dance_moves
              \<longleftrightarrow> parse_move get_int get_double line \<noteq> None)
         \<and> fold (read_line get_int get_double move) lines [] =
             List.map_filter (parse_move get_int get_double) lines
         \<and> (files path = Some lines \<and> List.map_filter (parse_move get_int get_double) lines \<noteq> [] \<longrightarrow>
              readDanceMovesFromConfig get_int get_double move files path =
                Inr (List.map_filter (parse_move get_int get_double) lines))"
  using read_line_parse_move [OF assms, of get_double line dance_moves]
    fold_read_line [OF assms, of get_double lines "[]"]
  by (auto simp: readDanceMovesFromConfig_def split: option.splits)

theorem read_line_whole_move_or_nothing_witness:
  "read_line decimal_int decimal_double
      \<lparr>move_index = 7, joints = [9, 9, 9, 9, 9, 9, 9], move_time = 9\<rparr>
      ''1 0 -0.5 0 0.1 0 1.5 0 2'' [] =
     [\<lparr>move_index = 1,
       joints = [0, - 1 / 2, 0, 3602879701896397 / 2 ^ 55, 0, 3 / 2, 0], move_time = 2\<rparr>]
   \<and> read_line decimal_int decimal_double
        \<lparr>move_index = 7, joints = [9, 9, 9, 9, 9, 9, 9], move_time = 9\<rparr>
        ''2 0 0 x 0 0 0 0 3'' [] = []
   \<and> readDanceMovesFromConfig decimal_int decimal_double
        \<lparr>move_index = 7, joints = [9, 9, 9, 9, 9, 9, 9], move_time = 9\<rparr>
        (\<lambda>path. Some [''# poses'', [], ''1 0 -0.5 0 0.1 0 1.5 0 2'', ''2 0 0 x 0 0 0 0 3''])
        ''dance.cfg'' =
       Inr [\<lparr>move_index = 1,
             joints = [0, - 1 / 2, 0, 3602879701896397 / 2 ^ 55, 0, 3 / 2, 0], move_time = 2\<rparr>]"
proof -
  let ?move = "\<lparr>move_index = 7, joints = [9, 9, 9, 9, 9, 9, 9], move_time = 9\<rparr>"
  let ?lines = "[''# poses'', [], ''1 0 -0.5 0 0.1 0 1.5 0 2'', ''2 0 0 x 0 0 0 0 3'']"
  let ?m = "\<lparr>move_index = 1,
      joints = [0, - 1 / 2, 0, 3602879701896397 / 2 ^ 55, 0, 3 / 2, 0], move_time = 2\<rparr>"
  have len: "length (joints ?move) = 7"
    by simp
  have hash: "\<forall>s. \<exists>z. decimal_int (CHR ''#'' # s) = NoConversion z"
    by (rule decimal_int_hash)
  have comment: "parse_move decimal_int decimal_double ''# poses'' = None"
    by (simp add: parse_move_def field_def get_eval)
  have blank: "parse_move decimal_int decimal_double [] = None"
    by (simp add: parse_move_def field_def)
  have all: "List.map_filter (parse_move decimal_int decimal_double) ?lines = [?m]"
    by (simp add: List.map_filter_simps comment blank parse_move_good parse_move_bad)
  from read_line_whole_move_or_nothing
    [OF len hash, of decimal_double "''1 0 -0.5 0 0.1 0 1.5 0 2''" "[]" ?lines
      "\<lambda>path. Some ?lines" "''dance.cfg''"]
  have good: "read_line decimal_int decimal_double ?move ''1 0 -0.5 0 0.1 0 1.5 0 2'' [] = [?m]"
    and whole: "readDanceMovesFromConfig decimal_int decimal_double ?move
      (\<lambda>path. Some ?lines) ''dance.cfg'' = Inr [?m]"
    unfolding all by (simp_all add: parse_move_good)
  from read_line_whole_move_or_nothing
    [OF len hash, of decimal_double "''2 0 0 x 0 0 0 0 3''" "[]"]
  have bad: "read_line decimal_int decimal_double ?move ''2 0 0 x 0 0 0 0 3'' [] = []"
    by (simp add: parse_move_bad)
  from good bad whole show ?thesis
    by simp
qed

end
